theory Spec2Isabelle
  imports Main "HOL-Library.Word" "HOL-Library.Multiset"
begin

section \<open>Data model of zipsplit.go\<close>

text \<open>
  The fields of \<^verbatim>\<open>zip.FileHeader\<close> that the program reads. Strings and byte slices are
  byte lists; \<^verbatim>\<open>CompressedSize64\<close> is a \<^verbatim>\<open>uint64\<close>.
\<close>

record FileHeader =
  Name :: string
  Comment :: string
  Extra :: "8 word list"
  CompressedSize64 :: "64 word"

record Config =
  sourceArchive :: string
  nameTemplate :: string
  splitSize :: "64 word"

text \<open>
  \<^verbatim>\<open>Bucket.size\<close> is called \<open>size_b\<close> here. The \<^verbatim>\<open>config\<close> field is never assigned by
  the program, so every bucket carries the zero value of \<^verbatim>\<open>Config\<close>.
\<close>

record Bucket =
  config :: Config
  filename :: string
  size_b :: "64 word"
  files :: "FileHeader list"

definition zeroConfig :: Config where
  "zeroConfig = \<lparr>sourceArchive = [], nameTemplate = [], splitSize = 0\<rparr>"

datatype error = InvalidTemplate | OpenError | CreateError | CopyError

section \<open>numberedFileNamer\<close>

text \<open>
  \<^verbatim>\<open>strings.Contains\<close>: does \<open>sub\<close> occur in \<open>s\<close> as a contiguous run of bytes.
\<close>

fun hasPrefix :: "string \<Rightarrow> string \<Rightarrow> bool" where
  "hasPrefix s [] = True"
| "hasPrefix [] (p # ps) = False"
| "hasPrefix (c # cs) (p # ps) = (c = p \<and> hasPrefix cs ps)"

fun Contains :: "string \<Rightarrow> string \<Rightarrow> bool" where
  "Contains [] sub = (sub = [])"
| "Contains (c # cs) sub = (hasPrefix (c # cs) sub \<or> Contains cs sub)"

text \<open>
  \<^verbatim>\<open>fmt.Sprintf(template, n)\<close> belongs to the Go standard library; the functions below
  take it as the parameter \<open>sprintf\<close>, applied to the template and the value of the
  \<^verbatim>\<open>int\<close> operand. The closure returned by \<^verbatim>\<open>numberedFileNamer\<close> captures the template
  and the counter \<^verbatim>\<open>n\<close>, a 64-bit \<^verbatim>\<open>int\<close>: the model returns the initial counter, and
  \<open>newZipName\<close> is one call of the closure, giving the name and the next counter.
\<close>

definition numberedFileNamer :: "(string \<Rightarrow> int \<Rightarrow> string) \<Rightarrow> string \<Rightarrow> error + 64 word" where
  "numberedFileNamer sprintf template =
     (let a = sprintf template 0;
          b = sprintf template 1
      in if a = b \<or> Contains a ''%!'' then Inl InvalidTemplate else Inr 1)"

definition newZipName :: "(string \<Rightarrow> int \<Rightarrow> string) \<Rightarrow> string \<Rightarrow> 64 word \<Rightarrow> string \<times> 64 word" where
  "newZipName sprintf template n = (sprintf template (sint n), n + 1)"


section \<open>fit\<close>

text \<open>The value \<^verbatim>\<open>totalSize\<close> that the inner loop of \<^verbatim>\<open>fit\<close> computes for a file.\<close>

definition totalSize :: "FileHeader \<Rightarrow> 64 word" where
  "totalSize file =
     of_nat (length (Name file)) + 30 + 16 + 46 +
     of_nat (length (Name file)) +
     of_nat (length (Comment file)) +
     of_nat (length (Extra file)) +
     CompressedSize64 file"

text \<open>
  The inner loop over the existing buckets: the first bucket that passes the capacity
  test is updated in place and the scan stops; \<open>None\<close> is \<^verbatim>\<open>added == false\<close>.
\<close>

fun addToFirst :: "Config \<Rightarrow> FileHeader \<Rightarrow> Bucket list \<Rightarrow> Bucket list option" where
  "addToFirst cfg file [] = None"
| "addToFirst cfg file (bucket # buckets) =
     (if size_b bucket + totalSize file \<le> splitSize cfg - 22
      then Some (bucket\<lparr>size_b := size_b bucket + totalSize file,
                        files := files bucket @ [file]\<rparr> # buckets)
      else map_option ((#) bucket) (addToFirst cfg file buckets))"

text \<open>One iteration of the outer loop; the state is the bucket list and the namer's counter.\<close>

definition fitStep :: "(string \<Rightarrow> int \<Rightarrow> string) \<Rightarrow> Config \<Rightarrow> Bucket list \<times> 64 word \<Rightarrow> FileHeader
    \<Rightarrow> Bucket list \<times> 64 word" where
  "fitStep sprintf cfg st file =
     (case addToFirst cfg file (fst st) of
        Some buckets \<Rightarrow> (buckets, snd st)
      | None \<Rightarrow>
          (let (name, n) = newZipName sprintf (nameTemplate cfg) (snd st)
           in (fst st @ [\<lparr>config = zeroConfig, filename = name,
                          size_b = CompressedSize64 file, files = [file]\<rparr>], n)))"

definition fit :: "(string \<Rightarrow> int \<Rightarrow> string) \<Rightarrow> FileHeader list \<Rightarrow> Config \<Rightarrow> error + Bucket list" where
  "fit sprintf fs cfg =
     (case numberedFileNamer sprintf (nameTemplate cfg) of
        Inl err \<Rightarrow> Inl err
      | Inr n \<Rightarrow> Inr (fst (foldl (fitStep sprintf cfg) ([], n) fs)))"

section \<open>The library function behind the namer\<close>

text \<open>
  A model of \<^verbatim>\<open>fmt.Sprintf(template, n)\<close> with one \<^verbatim>\<open>int\<close> operand, written after the
  scanning loop of the standard library (\<^verbatim>\<open>doPrintf\<close>) for the part of the directive
  language used here: literal text, \<^verbatim>\<open>%%\<close>, the verb \<^verbatim>\<open>%d\<close> with the flag \<^verbatim>\<open>0\<close> and a
  decimal width, and the plain verb \<^verbatim>\<open>%c\<close>. The result is \<open>None\<close> for a template that
  uses anything else. The error texts are the library's: a verb with no operand left
  prints \<^verbatim>\<open>%!d(MISSING)\<close>, an operand that no verb consumed prints
  \<^verbatim>\<open>%!(EXTRA int=n)\<close>, a directive cut off by the end of the template prints
  \<^verbatim>\<open>%!(NOVERB)\<close>.
\<close>

definition isDigit :: "char \<Rightarrow> bool" where
  "isDigit c = (48 \<le> (of_char c :: nat) \<and> (of_char c :: nat) \<le> 57)"

definition digitVal :: "char \<Rightarrow> nat" where
  "digitVal c = of_char c - 48"

definition digitChar :: "nat \<Rightarrow> char" where
  "digitChar d = char_of (48 + d)"

fun decimal :: "nat \<Rightarrow> string" where
  "decimal u = (if u < 10 then [digitChar u] else decimal (u div 10) @ [digitChar (u mod 10)])"

declare decimal.simps [simp del]

text \<open>\<^verbatim>\<open>fmt.pad\<close> without the minus flag: spaces on the left up to the width.\<close>

definition pad :: "nat option \<Rightarrow> string \<Rightarrow> string" where
  "pad wid s = (case wid of None \<Rightarrow> s | Some w \<Rightarrow> replicate (w - length s) CHR '' '' @ s)"

text \<open>
  \<^verbatim>\<open>fmt.fmtInteger\<close> in base 10 for a signed operand: with the zero flag and a width the
  digits are filled with zeros up to the width, one less when a sign is written.
\<close>

definition fmtInteger :: "bool \<Rightarrow> nat option \<Rightarrow> int \<Rightarrow> string" where
  "fmtInteger zero wid v =
     (let negative = v < 0;
          prec = (case wid of
                    None \<Rightarrow> 0
                  | Some w \<Rightarrow> if zero then (if negative then w - 1 else w) else 0);
          ds = decimal (nat \<bar>v\<bar>);
          zs = replicate (prec - length ds) CHR ''0'' @ ds
      in pad wid (if negative then CHR ''-'' # zs else zs))"

text \<open>\<^verbatim>\<open>utf8.AppendRune\<close>: surrogates and values above U+10FFFF are written as U+FFFD.\<close>

definition appendRune :: "nat \<Rightarrow> string" where
  "appendRune r =
     (if r \<le> 0x7F then [char_of r]
      else if r \<le> 0x7FF then [char_of (0xC0 + r div 64), char_of (0x80 + r mod 64)]
      else if r > 0x10FFFF \<or> (0xD800 \<le> r \<and> r \<le> 0xDFFF)
        then [char_of (0xEF :: nat), char_of (0xBF :: nat), char_of (0xBD :: nat)]
      else if r \<le> 0xFFFF
        then [char_of (0xE0 + r div 4096), char_of (0x80 + r div 64 mod 64),
              char_of (0x80 + r mod 64)]
      else [char_of (0xF0 + r div 262144), char_of (0x80 + r div 4096 mod 64),
            char_of (0x80 + r div 64 mod 64), char_of (0x80 + r mod 64)])"

text \<open>\<^verbatim>\<open>fmt.fmtC\<close>: the operand is read as a \<^verbatim>\<open>uint64\<close>, so a negative one is out of range.\<close>

definition fmtC :: "int \<Rightarrow> string" where
  "fmtC v = appendRune (if v < 0 \<or> v > 0x10FFFF then 0xFFFD else nat v)"

definition extraArgs :: "nat \<Rightarrow> int \<Rightarrow> string" where
  "extraArgs argNum v =
     (if argNum < 1 then ''%!(EXTRA int='' @ fmtInteger False None v @ '')'' else [])"

text \<open>One verb: the text written and the operand index afterwards.\<close>

definition printVerb :: "bool \<Rightarrow> nat option \<Rightarrow> char \<Rightarrow> nat \<Rightarrow> int \<Rightarrow> (string \<times> nat) option" where
  "printVerb zero wid verb argNum v =
     (if verb = CHR ''%'' then Some (''%'', argNum)
      else if verb = CHR ''d''
        then Some (if 1 \<le> argNum then (''%!d(MISSING)'', argNum)
                   else (fmtInteger zero wid v, argNum + 1))
      else if verb = CHR ''c'' \<and> \<not> zero \<and> wid = None
        then Some (if 1 \<le> argNum then (''%!c(MISSING)'', argNum) else (fmtC v, argNum + 1))
      else None)"

datatype scan = Text | Flags bool | Width bool nat

fun doPrintf :: "scan \<Rightarrow> nat \<Rightarrow> int \<Rightarrow> string \<Rightarrow> string option" where
  "doPrintf Text argNum v [] = Some (extraArgs argNum v)"
| "doPrintf Text argNum v (c # cs) =
     (if c = CHR ''%'' then doPrintf (Flags False) argNum v cs
      else map_option ((#) c) (doPrintf Text argNum v cs))"
| "doPrintf (Flags zero) argNum v [] = Some (''%!(NOVERB)'' @ extraArgs argNum v)"
| "doPrintf (Flags zero) argNum v (c # cs) =
     (if c = CHR ''0'' then doPrintf (Flags True) argNum v cs
      else if isDigit c then doPrintf (Width zero (digitVal c)) argNum v cs
      else (case printVerb zero None c argNum v of
              None \<Rightarrow> None
            | Some (out, argNum') \<Rightarrow> map_option ((@) out) (doPrintf Text argNum' v cs)))"
| "doPrintf (Width zero w) argNum v [] = Some (''%!(NOVERB)'' @ extraArgs argNum v)"
| "doPrintf (Width zero w) argNum v (c # cs) =
     (if isDigit c
      then (if 1000000 < w then None
            else doPrintf (Width zero (w * 10 + digitVal c)) argNum v cs)
      else (case printVerb zero (Some w) c argNum v of
              None \<Rightarrow> None
            | Some (out, argNum') \<Rightarrow> map_option ((@) out) (doPrintf Text argNum' v cs)))"

text \<open>
  The total function handed to the namer. Outside the modelled directives its value is
  the empty string; the theorems below name the templates they are about.
\<close>

definition Sprintf :: "string \<Rightarrow> int \<Rightarrow> string" where
  "Sprintf template v = (case doPrintf Text 0 v template of Some s \<Rightarrow> s | None \<Rightarrow> [])"

section \<open>humanToNumber\<close>

text \<open>
  The byte sizes: \<^verbatim>\<open>1 << (iota * 10)\<close> for \<^verbatim>\<open>iota\<close> from 0 to 5.
\<close>

definition Byte :: "64 word" where "Byte = push_bit (0 * 10) 1"
definition KByte :: "64 word" where "KByte = push_bit (1 * 10) 1"
definition MByte :: "64 word" where "MByte = push_bit (2 * 10) 1"
definition GByte :: "64 word" where "GByte = push_bit (3 * 10) 1"
definition TByte :: "64 word" where "TByte = push_bit (4 * 10) 1"
definition EByte :: "64 word" where "EByte = push_bit (5 * 10) 1"

definition sizeTable :: "(string \<times> 64 word) list" where
  "sizeTable =
     [([], Byte), (''b'', Byte),
      (''k'', KByte), (''kb'', KByte),
      (''m'', MByte), (''mb'', MByte),
      (''g'', GByte), (''gb'', GByte),
      (''t'', TByte), (''tb'', TByte),
      (''e'', EByte), (''eb'', EByte)]"

text \<open>
  The library functions on the bytes of an ASCII string: \<^verbatim>\<open>unicode.IsDigit\<close> is
  \<open>isDigit\<close>, \<^verbatim>\<open>strings.TrimSpace\<close> removes tab, line feed, vertical tab, form feed,
  carriage return and space at both ends, \<^verbatim>\<open>strings.ToLower\<close> maps A to Z. A byte
  above 127 is left alone by all three, which is not what the library does with the
  character it belongs to: the theorems on \<open>humanToNumber\<close> are about ASCII arguments.
\<close>

definition isAscii :: "char \<Rightarrow> bool" where
  "isAscii c = ((of_char c :: nat) < 128)"

definition isSpace :: "char \<Rightarrow> bool" where
  "isSpace c = ((9 \<le> (of_char c :: nat) \<and> (of_char c :: nat) \<le> 13) \<or> (of_char c :: nat) = 32)"

definition TrimSpace :: "string \<Rightarrow> string" where
  "TrimSpace s = rev (dropWhile isSpace (rev (dropWhile isSpace s)))"

definition toLower :: "char \<Rightarrow> char" where
  "toLower c =
     (if 65 \<le> (of_char c :: nat) \<and> (of_char c :: nat) \<le> 90 then char_of ((of_char c :: nat) + 32)
      else c)"

definition ToLower :: "string \<Rightarrow> string" where
  "ToLower s = map toLower s"

text \<open>
  \<^verbatim>\<open>strconv.ParseUint(s, 10, 64)\<close>: \<open>None\<close> is the error result, for the empty string,
  for a byte that is not a decimal digit, and for a value that needs more than 64 bits.
\<close>

fun parseDigits :: "nat \<Rightarrow> string \<Rightarrow> nat option" where
  "parseDigits n [] = Some n"
| "parseDigits n (c # cs) =
     (if \<not> isDigit c then None
      else if 2 ^ 64 \<le> n * 10 + digitVal c then None
      else parseDigits (n * 10 + digitVal c) cs)"

definition ParseUint :: "string \<Rightarrow> 64 word option" where
  "ParseUint s = (if s = [] then None else map_option of_nat (parseDigits 0 s))"

text \<open>The loop that counts the leading digits.\<close>

fun splitPoint :: "string \<Rightarrow> nat" where
  "splitPoint [] = 0"
| "splitPoint (r # rs) = (if \<not> isDigit r then 0 else 1 + splitPoint rs)"

definition humanToNumber :: "string \<Rightarrow> 64 word" where
  "humanToNumber s =
     (let numberString = take (splitPoint s) s
      in case ParseUint numberString of
           None \<Rightarrow> 0
         | Some number \<Rightarrow>
             (let suffix = ToLower (TrimSpace (drop (splitPoint s) s));
                  factor = (case map_of sizeTable suffix of Some f \<Rightarrow> f | None \<Rightarrow> 0)
              in number * factor))"

text \<open>
  What the specification says of the result, for comparison: the value of the leading
  decimal digits, and the factor of each suffix.
\<close>

definition decimalValue :: "string \<Rightarrow> nat" where
  "decimalValue ds = foldl (\<lambda>n c. n * 10 + digitVal c) 0 ds"

definition specFactor :: "string \<Rightarrow> 64 word" where
  "specFactor u =
     (if u = [] \<or> u = ''b'' then 1
      else if u = ''k'' \<or> u = ''kb'' then 1024
      else if u = ''m'' \<or> u = ''mb'' then 1024 ^ 2
      else if u = ''g'' \<or> u = ''gb'' then 1024 ^ 3
      else if u = ''t'' \<or> u = ''tb'' then 1024 ^ 4
      else if u = ''e'' \<or> u = ''eb'' then 1024 ^ 5
      else 0)"


section \<open>Sorting by size\<close>

definition bySize_Less :: "FileHeader \<Rightarrow> FileHeader \<Rightarrow> bool" where
  "bySize_Less a b = (CompressedSize64 a < CompressedSize64 b)"

text \<open>\<^verbatim>\<open>sort.Reverse\<close>: the order with the arguments of \<^verbatim>\<open>Less\<close> exchanged.\<close>

definition reverse_Less :: "FileHeader \<Rightarrow> FileHeader \<Rightarrow> bool" where
  "reverse_Less a b = bySize_Less b a"

text \<open>
  \<^verbatim>\<open>sort.Sort\<close> belongs to the standard library, which promises that the data ends up
  in the order of \<^verbatim>\<open>Less\<close> and does not promise that equal elements keep their order.
  \<open>main\<close> takes it as a parameter; \<open>sortedBy\<close> says that \<open>ys\<close> is a possible result for
  \<open>xs\<close>: the same elements, and what \<^verbatim>\<open>sort.IsSorted\<close> tests.
\<close>

fun IsSorted :: "('a \<Rightarrow> 'a \<Rightarrow> bool) \<Rightarrow> 'a list \<Rightarrow> bool" where
  "IsSorted lt [] = True"
| "IsSorted lt [x] = True"
| "IsSorted lt (x # y # zs) = (\<not> lt y x \<and> IsSorted lt (y # zs))"

definition sortedBy :: "('a \<Rightarrow> 'a \<Rightarrow> bool) \<Rightarrow> 'a list \<Rightarrow> 'a list \<Rightarrow> bool" where
  "sortedBy lt xs ys = (mset ys = mset xs \<and> IsSorted lt ys)"

text \<open>
  The library's \<^verbatim>\<open>insertionSort\<close>, one sorting function that meets the promise: each
  element moves left while it is less than its left neighbour. The prefix already
  sorted is kept reversed, its last element first.
\<close>

fun sink :: "('a \<Rightarrow> 'a \<Rightarrow> bool) \<Rightarrow> 'a \<Rightarrow> 'a list \<Rightarrow> 'a list" where
  "sink lt x [] = [x]"
| "sink lt x (y # ys) = (if lt x y then y # sink lt x ys else x # y # ys)"

definition insertionSort :: "('a \<Rightarrow> 'a \<Rightarrow> bool) \<Rightarrow> 'a list \<Rightarrow> 'a list" where
  "insertionSort lt xs = rev (foldl (\<lambda>sorted x. sink lt x sorted) [] xs)"

text \<open>
  A second sorting function that meets the promise: the same loop, but an element also
  moves left of its equals, so that entries of equal size come out in reverse order.
\<close>

definition tieReversingSort :: "('a \<Rightarrow> 'a \<Rightarrow> bool) \<Rightarrow> 'a list \<Rightarrow> 'a list" where
  "tieReversingSort lt xs = insertionSort (\<lambda>x y. \<not> lt y x) xs"

section \<open>makeZip\<close>

text \<open>
  The file system as the program meets it: what \<^verbatim>\<open>zip.OpenReader\<close> lists for a path
  (\<open>None\<close> when it fails), whether \<^verbatim>\<open>os.Create\<close> succeeds for a name, whether
  \<^verbatim>\<open>w.Copy\<close> succeeds for a source entry. An output is the name of a created file with
  the entries copied into it. The results of the deferred \<^verbatim>\<open>Close\<close> calls are discarded
  by the program and have no place in the model.
\<close>

record World =
  zipFile :: "string \<Rightarrow> FileHeader list option"
  canCreate :: "string \<Rightarrow> bool"
  canCopy :: "FileHeader \<Rightarrow> bool"

type_synonym Output = "string \<times> FileHeader list"

text \<open>
  The two nested loops: for each file of the bucket the first source entry of the same
  name is copied; when no source entry has the name, the inner loop ends and the outer
  loop goes on.
\<close>

fun copyFiles :: "World \<Rightarrow> FileHeader list \<Rightarrow> FileHeader list \<Rightarrow> error option \<times> FileHeader list" where
  "copyFiles w sourceFiles [] = (None, [])"
| "copyFiles w sourceFiles (bucketFile # rest) =
     (case find (\<lambda>sourceFile. Name bucketFile = Name sourceFile) sourceFiles of
        None \<Rightarrow> copyFiles w sourceFiles rest
      | Some sourceFile \<Rightarrow>
          if canCopy w sourceFile
          then (let (err, copied) = copyFiles w sourceFiles rest in (err, sourceFile # copied))
          else (Some CopyError, []))"

definition makeZip :: "World \<Rightarrow> Bucket \<Rightarrow> Config \<Rightarrow> error option \<times> Output list" where
  "makeZip w bucket cfg =
     (case zipFile w (sourceArchive cfg) of
        None \<Rightarrow> (Some OpenError, [])
      | Some sourceFiles \<Rightarrow>
          if \<not> canCreate w (filename bucket) then (Some CreateError, [])
          else (let (err, copied) = copyFiles w sourceFiles (files bucket)
                in (err, [(filename bucket, copied)])))"

section \<open>numberToHuman\<close>

text \<open>
  \<^verbatim>\<open>float64(n)\<close> for an unsigned integer: the nearest number with 53 significant bits,
  the even one of two equally near. The result is an integer again.
\<close>

fun bitLength :: "nat \<Rightarrow> nat" where
  "bitLength n = (if n = 0 then 0 else Suc (bitLength (n div 2)))"

declare bitLength.simps [simp del]

definition float64 :: "nat \<Rightarrow> nat" where
  "float64 n =
     (let e = bitLength n - 53;
          q = n div 2 ^ e;
          r = n mod 2 ^ e
      in if 2 ^ e < 2 * r \<or> (2 ^ e = 2 * r \<and> odd q) then (q + 1) * 2 ^ e else q * 2 ^ e)"

text \<open>
  The loop of \<^verbatim>\<open>numberToHuman\<close>. Dividing a \<^verbatim>\<open>float64\<close> by 1024 is exact, so that after
  \<open>i\<close> rounds \<^verbatim>\<open>value\<close> is \<open>m / 1024 ^ i\<close> for the start value \<open>m\<close>, and the test
  \<^verbatim>\<open>value > KByte\<close> is \<open>1024 * 1024 ^ i < m\<close>. The function returns the last \<open>i\<close>.
\<close>

function unitLoop :: "nat \<Rightarrow> nat \<Rightarrow> nat" where
  "unitLoop m i = (if 1024 * 1024 ^ i < m \<and> i < 6 then unitLoop m (Suc i) else i)"
  by pat_completeness auto
termination
  by (relation "measure (\<lambda>(m, i). 6 - i)") auto

declare unitLoop.simps [simp del]

definition units :: "string list" where
  "units = [''b'', ''Kb'', ''Mb'', ''Gb'', ''Tb'', ''Eb'']"

text \<open>
  The result \<open>Some (m, i, u)\<close> stands for the text of \<open>m / 1024 ^ i\<close> with two decimals
  followed by the unit \<open>u\<close>; \<open>None\<close> is the run-time panic of \<^verbatim>\<open>units[i]\<close> when the loop
  ends with \<open>i = 6\<close>.
\<close>

definition numberToHuman :: "64 word \<Rightarrow> (nat \<times> nat \<times> string) option" where
  "numberToHuman n =
     (let m = float64 (unat n);
          i = unitLoop m 0
      in if i < length units then Some (m, i, units ! i) else None)"

section \<open>main\<close>

text \<open>
  How a run ends, with the outputs created up to then. \<open>IndexOutOfRange\<close> is the run-time
  panic of an index out of range, of \<^verbatim>\<open>files[0]\<close> on an empty slice or inside
  \<^verbatim>\<open>numberToHuman\<close>; every other failure is \<^verbatim>\<open>os.Exit(1)\<close> or \<^verbatim>\<open>log.Fatal\<close>.
\<close>

datatype outcome =
    Done
  | NoInputArchive
  | ListFailed
  | CanNeverFit string "64 word"
  | IndexOutOfRange
  | FitFailed error
  | MakeZipFailed error

fun exitCode :: "outcome \<Rightarrow> nat" where
  "exitCode Done = 0"
| "exitCode IndexOutOfRange = 2"
| "exitCode other = 1"

fun makeZips :: "World \<Rightarrow> Config \<Rightarrow> Bucket list \<Rightarrow> outcome \<times> Output list" where
  "makeZips w cfg [] = (Done, [])"
| "makeZips w cfg (bucket # buckets) =
     (case makeZip w bucket cfg of
        (Some err, outs) \<Rightarrow> (MakeZipFailed err, outs)
      | (None, outs) \<Rightarrow> (let (res, more) = makeZips w cfg buckets in (res, outs @ more)))"

definition main ::
  "((FileHeader \<Rightarrow> FileHeader \<Rightarrow> bool) \<Rightarrow> FileHeader list \<Rightarrow> FileHeader list) \<Rightarrow>
   (string \<Rightarrow> int \<Rightarrow> string) \<Rightarrow> World \<Rightarrow> string \<Rightarrow> string \<Rightarrow> string \<Rightarrow> outcome \<times> Output list" where
  "main sortSort sprintf w inArg sArg outArg =
     (if inArg = [] then (NoInputArchive, [])
      else
        (let cfg = \<lparr>sourceArchive = inArg, nameTemplate = outArg,
                    splitSize = humanToNumber sArg\<rparr>
         in case zipFile w (sourceArchive cfg) of
              None \<Rightarrow> (ListFailed, [])
            | Some listed \<Rightarrow>
                (let fs = sortSort reverse_Less listed
                 in if length fs < 1 \<or> splitSize cfg < CompressedSize64 (fs ! 0)
                    then (case fs of
                            [] \<Rightarrow> (IndexOutOfRange, [])
                          | f # _ \<Rightarrow>
                              (case numberToHuman (CompressedSize64 f) of
                                 None \<Rightarrow> (IndexOutOfRange, [])
                               | Some text \<Rightarrow> (CanNeverFit (Name f) (CompressedSize64 f), [])))
                    else (case fit sprintf fs cfg of
                            Inl err \<Rightarrow> (FitFailed err, [])
                          | Inr buckets \<Rightarrow> makeZips w cfg buckets))))"

section \<open>Example data\<close>

definition entry :: "string \<Rightarrow> nat \<Rightarrow> FileHeader" where
  "entry name n = \<lparr>Name = name, Comment = [], Extra = [], CompressedSize64 = of_nat n\<rparr>"

definition exampleConfig :: "nat \<Rightarrow> Config" where
  "exampleConfig bound =
     \<lparr>sourceArchive = ''in.zip'', nameTemplate = ''out-%03d.zip'', splitSize = of_nat bound\<rparr>"

definition exampleWorld :: "FileHeader list \<Rightarrow> World" where
  "exampleWorld listed =
     \<lparr>zipFile = (\<lambda>path. Some listed), canCreate = (\<lambda>name. True), canCopy = (\<lambda>f. True)\<rparr>"


lemma entry_sel [simp]:
  "Name (entry name n) = name"
  "Comment (entry name n) = []"
  "Extra (entry name n) = []"
  "CompressedSize64 (entry name n) = of_nat n"
  by (simp_all add: entry_def)

lemma entry_eq [simp]: "(entry name n = entry name' n') = (name = name' \<and> (of_nat n :: 64 word) = of_nat n')"
  by (auto simp: entry_def)

section \<open>The packer returns a partition of its input\<close>

lemma addToFirst_mset:
  "addToFirst cfg f bs = Some bs' \<Longrightarrow>
   mset (concat (map files bs')) = mset (concat (map files bs)) + {#f#}"
  by (induction bs arbitrary: bs') (auto split: if_splits)

lemma fitStep_mset:
  "mset (concat (map files (fst (fitStep sprintf cfg st f)))) =
   mset (concat (map files (fst st))) + {#f#}"
  by (auto simp: fitStep_def newZipName_def addToFirst_mset split: option.splits)

lemma foldl_fitStep_mset:
  "mset (concat (map files (fst (foldl (fitStep sprintf cfg) st fs)))) =
   mset (concat (map files (fst st))) + mset fs"
  by (induction fs arbitrary: st) (simp_all add: fitStep_mset)

text \<open>
  C4. Whenever \<open>fit\<close> returns buckets, the file lists of the buckets taken together are
  the input list as a multiset: every input entry sits in the buckets exactly as often
  as it occurs in the input, none is left out and none is added.
\<close>

theorem fit_partition:
  "fit sprintf fs cfg = Inr buckets \<Longrightarrow> mset (concat (map files buckets)) = mset fs"
  by (auto simp: fit_def foldl_fitStep_mset split: sum.splits)

theorem fit_partition_witness:
  "fit Sprintf [entry ''a'' 9000, entry ''b'' 4000, entry ''c'' 4000] (exampleConfig 10000) =
     Inr [\<lparr>config = zeroConfig, filename = ''out-001.zip'', size_b = 9000,
            files = [entry ''a'' 9000]\<rparr>,
          \<lparr>config = zeroConfig, filename = ''out-002.zip'', size_b = 8094,
            files = [entry ''b'' 4000, entry ''c'' 4000]\<rparr>]
   \<and> mset (concat (map files
        [\<lparr>config = zeroConfig, filename = ''out-001.zip'', size_b = 9000,
            files = [entry ''a'' 9000]\<rparr>,
          \<lparr>config = zeroConfig, filename = ''out-002.zip'', size_b = 8094,
            files = [entry ''b'' 4000, entry ''c'' 4000]\<rparr>])) =
     mset [entry ''a'' 9000, entry ''b'' 4000, entry ''c'' 4000]"
proof -
  have run: "fit Sprintf [entry ''a'' 9000, entry ''b'' 4000, entry ''c'' 4000] (exampleConfig 10000) =
     Inr [\<lparr>config = zeroConfig, filename = ''out-001.zip'', size_b = 9000,
            files = [entry ''a'' 9000]\<rparr>,
          \<lparr>config = zeroConfig, filename = ''out-002.zip'', size_b = 8094,
            files = [entry ''b'' 4000, entry ''c'' 4000]\<rparr>]"
    by code_simp
  from fit_partition [OF run] run show ?thesis by simp
qed

section \<open>The cost of an entry\<close>

text \<open>
  C3. The cost \<open>totalSize\<close> of an entry is the sum of 30, 16 and 46, the length of the name
  twice, the length of the comment, the length of the extra field and the compressed
  size. It is a \<^verbatim>\<open>uint64\<close>: it is that sum modulo \<open>2 ^ 64\<close>, hence the sum itself whenever
  the sum fits into 64 bits. The capacity test of the packer adds this cost to the size
  of the bucket.
\<close>

theorem totalSize_cost:
  "unat (totalSize f) =
     (30 + 16 + 46 + 2 * length (Name f) + length (Comment f) + length (Extra f)
        + unat (CompressedSize64 f)) mod 2 ^ 64
   \<and> (30 + 16 + 46 + 2 * length (Name f) + length (Comment f) + length (Extra f)
        + unat (CompressedSize64 f) < 2 ^ 64 \<longrightarrow>
      unat (totalSize f) =
        30 + 16 + 46 + 2 * length (Name f) + length (Comment f) + length (Extra f)
          + unat (CompressedSize64 f))
   \<and> addToFirst cfg f [b] =
       (if size_b b + totalSize f \<le> splitSize cfg - 22
        then Some [b\<lparr>size_b := size_b b + totalSize f, files := files b @ [f]\<rparr>]
        else None)"
proof -
  define N where "N = 30 + 16 + 46 + 2 * length (Name f) + length (Comment f) + length (Extra f)
        + unat (CompressedSize64 f)"
  have "totalSize f = of_nat N"
    by (simp add: totalSize_def N_def)
  then have m: "unat (totalSize f) = N mod 2 ^ 64"
    by (simp add: unat_of_nat)
  then have e: "N < 2 ^ 64 \<longrightarrow> unat (totalSize f) = N"
    by simp
  have a: "addToFirst cfg f [b] =
       (if size_b b + totalSize f \<le> splitSize cfg - 22
        then Some [b\<lparr>size_b := size_b b + totalSize f, files := files b @ [f]\<rparr>]
        else None)"
    by simp
  show ?thesis
    by (intro conjI) (rule m [unfolded N_def], rule e [unfolded N_def], rule a)
qed

theorem totalSize_cost_witness:
  "unat (totalSize \<lparr>Name = ''a.txt'', Comment = ''hi'', Extra = [1, 2, 3], CompressedSize64 = 1000\<rparr>)
     = 1107"
  using totalSize_cost [of "\<lparr>Name = ''a.txt'', Comment = ''hi'', Extra = [1, 2, 3], CompressedSize64 = 1000\<rparr>"]
  by simp

section \<open>The capacity test\<close>

lemma unat_minus_22: "(s :: 64 word) < 22 \<Longrightarrow> unat (s - 22) = 2 ^ 64 - 22 + unat s"
  by (simp add: unat_sub_if' word_less_nat_alt)

lemma capacity_test_small_splitSize:
  assumes "splitSize cfg < 22" and "unat (size_b b) + unat (totalSize f) \<le> 2 ^ 64 - 22"
  shows "size_b b + totalSize f \<le> splitSize cfg - 22"
proof -
  have "unat (size_b b + totalSize f) = unat (size_b b) + unat (totalSize f)"
    using assms(2) by (simp add: unat_add_lem [THEN iffD1])
  then show ?thesis
    using assms unat_minus_22 [OF assms(1)] by (simp add: word_le_nat_alt)
qed



text \<open>
  Hence the packer puts a whole list into the bucket it opens first, as long as the
  sizes do not add up to the end of the 64-bit range.
\<close>

lemma foldl_fitStep_one_bucket:
  assumes "splitSize cfg < 22"
    and "unat (size_b b) + sum_list (map (\<lambda>f. unat (totalSize f)) fs) \<le> 2 ^ 64 - 22"
  shows "foldl (fitStep sprintf cfg) ([b], n) fs =
      ([b\<lparr>size_b := size_b b + sum_list (map totalSize fs), files := files b @ fs\<rparr>], n)"
  using assms(2)
proof (induction fs arbitrary: b)
  case Nil
  then show ?case by simp
next
  case (Cons f fs)
  let ?b = "b\<lparr>size_b := size_b b + totalSize f, files := files b @ [f]\<rparr>"
  from Cons.prems have le: "unat (size_b b) + unat (totalSize f) \<le> 2 ^ 64 - 22"
    by simp
  then have acc: "size_b b + totalSize f \<le> splitSize cfg - 22"
    by (rule capacity_test_small_splitSize [OF assms(1)])
  have u: "unat (size_b b + totalSize f) = unat (size_b b) + unat (totalSize f)"
    using le by (simp add: unat_add_lem [THEN iffD1])
  have step: "fitStep sprintf cfg ([b], n) f = ([?b], n)"
    using acc by (simp add: fitStep_def)
  have "unat (size_b ?b) + sum_list (map (\<lambda>f. unat (totalSize f)) fs) \<le> 2 ^ 64 - 22"
    using Cons.prems u by simp
  from Cons.IH [OF this] step show ?case
    by (simp add: add.assoc)
qed

section \<open>Runs of the program\<close>

lemmas humanToNumber_eval =
  humanToNumber_def ParseUint_def isDigit_def digitVal_def ToLower_def toLower_def
  TrimSpace_def isSpace_def sizeTable_def Byte_def KByte_def MByte_def GByte_def TByte_def
  EByte_def char_of_def bit_0

lemma humanToNumber_1000: "humanToNumber ''1000'' = 1000"
  by (simp add: humanToNumber_eval)

lemma fit_a_b:
  "fit Sprintf [entry ''a'' 800, entry ''b'' 80] (exampleConfig 1000) =
     Inr [\<lparr>config = zeroConfig, filename = ''out-001.zip'', size_b = 974,
            files = [entry ''a'' 800, entry ''b'' 80]\<rparr>]"
  by code_simp

text \<open>
  C1. The bound invariant fails. With a split size of 1000 and the entries \<open>a\<close> of 800
  bytes and \<open>b\<close> of 80 bytes, \<open>fit\<close> puts both into one bucket: the bucket opened for \<open>a\<close>
  starts at 800, the compressed size alone, so that \<open>b\<close> with its cost of 174 passes the
  test against 978. The costs of the two entries add up to 1068. \<open>main\<close> accepts the
  input and writes the bucket.
\<close>

theorem fit_exceeds_bound:
  "fit Sprintf [entry ''a'' 800, entry ''b'' 80] (exampleConfig 1000) =
     Inr [\<lparr>config = zeroConfig, filename = ''out-001.zip'', size_b = 974,
            files = [entry ''a'' 800, entry ''b'' 80]\<rparr>]
   \<and> unat (totalSize (entry ''a'' 800)) + unat (totalSize (entry ''b'' 80)) = 1068
   \<and> unat (splitSize (exampleConfig 1000) - 22) = 978
   \<and> main insertionSort Sprintf (exampleWorld [entry ''a'' 800, entry ''b'' 80])
        ''in.zip'' ''1000'' ''out-%03d.zip'' =
       (Done, [(''out-001.zip'', [entry ''a'' 800, entry ''b'' 80])])"
proof -
  have s: "insertionSort reverse_Less [entry ''a'' 800, entry ''b'' 80] =
      [entry ''a'' 800, entry ''b'' 80]"
    by (simp add: insertionSort_def reverse_Less_def bySize_Less_def)
  have c: "unat (totalSize (entry ''a'' 800)) + unat (totalSize (entry ''b'' 80)) = 1068"
    by (simp add: totalSize_def)
  have b: "unat (splitSize (exampleConfig 1000) - 22) = 978"
    by (simp add: exampleConfig_def)
  have g: "\<not> (1000 :: 64 word) < CompressedSize64 (entry ''a'' 800)"
    by simp
  have m: "main insertionSort Sprintf (exampleWorld [entry ''a'' 800, entry ''b'' 80])
        ''in.zip'' ''1000'' ''out-%03d.zip'' =
       (Done, [(''out-001.zip'', [entry ''a'' 800, entry ''b'' 80])])"
    using fit_a_b g
    by (simp add: main_def humanToNumber_1000 s exampleWorld_def exampleConfig_def makeZip_def)
  from fit_a_b c b m show ?thesis by simp
qed

text \<open>
  C7. On an archive without entries the test \<^verbatim>\<open>len(files) < 1\<close> sends the program into
  the branch that prints \<^verbatim>\<open>files[0].Name\<close>: the run ends in the index panic, not in a
  report. No output is created.
\<close>

theorem main_empty_archive_panics:
  "main insertionSort Sprintf (exampleWorld []) ''in.zip'' ''10Mb'' ''out-%03d.zip'' =
     (IndexOutOfRange, [])"
  by (simp add: main_def exampleWorld_def insertionSort_def)

section \<open>The test before packing\<close>

lemma IsSorted_head_max:
  "IsSorted reverse_Less (x # xs) \<Longrightarrow> f \<in> set (x # xs) \<Longrightarrow>
   CompressedSize64 f \<le> CompressedSize64 x"
proof (induction xs arbitrary: x)
  case Nil
  then show ?case by simp
next
  case (Cons y ys)
  from Cons.prems(1) have nl: "\<not> reverse_Less y x"
    and rest: "IsSorted reverse_Less (y # ys)"
    by simp_all
  from nl have yx: "CompressedSize64 y \<le> CompressedSize64 x"
    by (simp add: reverse_Less_def bySize_Less_def not_less)
  show ?case
  proof (cases "f = x")
    case True
    then show ?thesis by simp
  next
    case False
    with Cons.prems(2) have "f \<in> set (y # ys)" by simp
    from Cons.IH [OF rest this] yx show ?thesis by simp
  qed
qed

text \<open>
  What the test does: when the archive lists an entry whose compressed size alone is
  larger than the split size, the run ends in the branch of the message that the largest
  entry can never fit, with a status other than 0 and without any output. This needs of
  the sorting function only what \<^verbatim>\<open>sort.Sort\<close> promises.
\<close>

lemma main_rejects_oversized:
  assumes "inArg \<noteq> []"
    and "zipFile w inArg = Some listed"
    and "sortedBy reverse_Less listed (sortSort reverse_Less listed)"
    and "f \<in> set listed"
    and "humanToNumber sArg < CompressedSize64 f"
  shows "main sortSort sprintf w inArg sArg outArg =
           (case numberToHuman (CompressedSize64 (hd (sortSort reverse_Less listed))) of
              None \<Rightarrow> IndexOutOfRange
            | Some text \<Rightarrow>
                CanNeverFit (Name (hd (sortSort reverse_Less listed)))
                            (CompressedSize64 (hd (sortSort reverse_Less listed))), [])
         \<and> 0 < exitCode (fst (main sortSort sprintf w inArg sArg outArg))"
proof -
  let ?fs = "sortSort reverse_Less listed"
  from assms(3) have m: "mset ?fs = mset listed" and s: "IsSorted reverse_Less ?fs"
    by (simp_all add: sortedBy_def)
  from m assms(4) have fin: "f \<in> set ?fs"
    by (metis set_mset_mset)
  then obtain x xs where fs: "?fs = x # xs"
    by (cases ?fs) auto
  from IsSorted_head_max [of x xs f] s fin fs
  have "CompressedSize64 f \<le> CompressedSize64 x" by simp
  with assms(5) have "humanToNumber sArg < CompressedSize64 x" by simp
  then have r: "main sortSort sprintf w inArg sArg outArg =
      (case numberToHuman (CompressedSize64 x) of
         None \<Rightarrow> IndexOutOfRange
       | Some text \<Rightarrow> CanNeverFit (Name x) (CompressedSize64 x), [])"
    using assms(1,2) fs by (simp add: main_def split: option.splits)
  then show ?thesis using fs by (simp split: option.splits)
qed

lemmas numberToHuman_eval =
  numberToHuman_def float64_def bitLength.simps unitLoop.simps units_def

text \<open>A bound of 100 bytes and one entry of 1000 bytes: the run is rejected.\<close>

lemma main_rejects_1000_of_100:
  "main insertionSort Sprintf (exampleWorld [entry ''big'' 1000]) ''in.zip'' ''100'' ''out-%03d.zip''
     = (CanNeverFit ''big'' 1000, [])"
proof -
  have h: "humanToNumber ''100'' < CompressedSize64 (entry ''big'' 1000)"
    by (simp add: humanToNumber_eval)
  have s: "sortedBy reverse_Less [entry ''big'' 1000] (insertionSort reverse_Less [entry ''big'' 1000])"
    by (simp add: sortedBy_def insertionSort_def)
  have z: "zipFile (exampleWorld [entry ''big'' 1000]) ''in.zip'' = Some [entry ''big'' 1000]"
    by (simp add: exampleWorld_def)
  have n: "numberToHuman 1000 = Some (1000, 0, ''b'')"
    by (simp add: numberToHuman_eval)
  from main_rejects_oversized [of "''in.zip''" "exampleWorld [entry ''big'' 1000]" "[entry ''big'' 1000]"
      insertionSort "entry ''big'' 1000" "''100''" Sprintf "''out-%03d.zip''", OF _ z s _ h]
  show ?thesis by (simp add: insertionSort_def n)
qed

text \<open>
  For an entry whose header states \<open>2 ^ 63\<close> bytes the same branch ends in the index
  panic of \<^verbatim>\<open>numberToHuman\<close>, whose loop leaves \<open>i = 6\<close>.
\<close>

lemma numberToHuman_panics: "numberToHuman (2 ^ 63) = None"
  by (simp add: numberToHuman_eval)

lemma fit_a_100:
  "fit Sprintf [entry ''a'' 100] (exampleConfig 100) =
     Inr [\<lparr>config = zeroConfig, filename = ''out-001.zip'', size_b = 100,
            files = [entry ''a'' 100]\<rparr>]"
  by code_simp

text \<open>
  C2. The test before packing compares the compressed size with the split size, not the
  cost with the room of an empty bucket. An entry of 100 bytes named \<open>a\<close> costs 194, more
  than the split size of 100, and passes the test: the run calls \<open>fit\<close>, ends with status
  0 and leaves one output.
\<close>

theorem main_accepts_oversized_cost:
  "splitSize (exampleConfig 100) < totalSize (entry ''a'' 100)
   \<and> main insertionSort Sprintf (exampleWorld [entry ''a'' 100]) ''in.zip'' ''100'' ''out-%03d.zip''
       = (Done, [(''out-001.zip'', [entry ''a'' 100])])
   \<and> exitCode Done = 0"
proof -
  have h: "humanToNumber ''100'' = 100"
    by (simp add: humanToNumber_eval)
  have c: "splitSize (exampleConfig 100) < totalSize (entry ''a'' 100)"
    by (simp add: exampleConfig_def totalSize_def)
  have m: "main insertionSort Sprintf (exampleWorld [entry ''a'' 100]) ''in.zip'' ''100'' ''out-%03d.zip''
       = (Done, [(''out-001.zip'', [entry ''a'' 100])])"
    using fit_a_100
    by (simp add: main_def h insertionSort_def exampleWorld_def exampleConfig_def makeZip_def)
  from c m show ?thesis by simp
qed

section \<open>Failures of makeZip\<close>






section \<open>The order of the entries\<close>



text \<open>
  Both sorting functions of the model keep the promise of \<^verbatim>\<open>sort.Sort\<close> for the order of
  \<open>main\<close>, on every list.
\<close>

lemma sink_mset: "mset (sink lt x ys) = add_mset x (mset ys)"
  by (induction ys) simp_all

lemma foldl_sink_mset: "mset (foldl (\<lambda>s x. sink lt x s) acc xs) = mset acc + mset xs"
  by (induction xs arbitrary: acc) (simp_all add: sink_mset)

lemma insertionSort_mset: "mset (insertionSort lt xs) = mset xs"
  by (simp add: insertionSort_def foldl_sink_mset)

lemma set_sink: "set (sink lt x ys) = insert x (set ys)"
  by (induction ys) auto

lemma sink_ascending:
  assumes "\<And>y. lt x y \<Longrightarrow> CompressedSize64 y \<le> CompressedSize64 x"
    and "\<And>y. \<not> lt x y \<Longrightarrow> CompressedSize64 x \<le> CompressedSize64 y"
    and "sorted_wrt (\<lambda>a b. CompressedSize64 a \<le> CompressedSize64 b) ys"
  shows "sorted_wrt (\<lambda>a b. CompressedSize64 a \<le> CompressedSize64 b) (sink lt x ys)"
  using assms(3)
proof (induction ys)
  case Nil
  then show ?case by simp
next
  case (Cons y ys)
  show ?case
  proof (cases "lt x y")
    case True
    with Cons assms(1) [OF True] show ?thesis by (auto simp: set_sink)
  next
    case False
    with Cons.prems assms(2) [OF False] show ?thesis by fastforce
  qed
qed

lemma foldl_sink_ascending:
  assumes "\<And>x y. lt x y \<Longrightarrow> CompressedSize64 y \<le> CompressedSize64 x"
    and "\<And>x y. \<not> lt x y \<Longrightarrow> CompressedSize64 x \<le> CompressedSize64 y"
  shows "sorted_wrt (\<lambda>a b. CompressedSize64 a \<le> CompressedSize64 b) acc \<Longrightarrow>
    sorted_wrt (\<lambda>a b. CompressedSize64 a \<le> CompressedSize64 b) (foldl (\<lambda>s x. sink lt x s) acc xs)"
proof (induction xs arbitrary: acc)
  case Nil
  then show ?case by simp
next
  case (Cons x xs)
  have "sorted_wrt (\<lambda>a b. CompressedSize64 a \<le> CompressedSize64 b) (sink lt x acc)"
    using assms Cons.prems by (intro sink_ascending) auto
  from Cons.IH [OF this] show ?case by simp
qed

lemma descending_IsSorted:
  "sorted_wrt (\<lambda>a b. CompressedSize64 b \<le> CompressedSize64 a) fs \<Longrightarrow> IsSorted reverse_Less fs"
  by (induction reverse_Less fs rule: IsSorted.induct)
     (auto simp: reverse_Less_def bySize_Less_def not_less)

lemma insertionSort_descending:
  assumes "\<And>x y. lt x y \<Longrightarrow> CompressedSize64 y \<le> CompressedSize64 x"
    and "\<And>x y. \<not> lt x y \<Longrightarrow> CompressedSize64 x \<le> CompressedSize64 y"
  shows "sortedBy reverse_Less xs (insertionSort lt xs)"
proof -
  have "sorted_wrt (\<lambda>a b. CompressedSize64 a \<le> CompressedSize64 b) (foldl (\<lambda>s x. sink lt x s) [] xs)"
    using assms by (intro foldl_sink_ascending) auto
  then have "sorted_wrt (\<lambda>a b. CompressedSize64 b \<le> CompressedSize64 a) (insertionSort lt xs)"
    by (simp add: insertionSort_def sorted_wrt_rev)
  then show ?thesis
    by (simp add: sortedBy_def insertionSort_mset descending_IsSorted)
qed

lemma insertionSort_sortedBy: "sortedBy reverse_Less xs (insertionSort reverse_Less xs)"
  by (rule insertionSort_descending) (auto simp: reverse_Less_def bySize_Less_def)

lemma tieReversingSort_sortedBy: "sortedBy reverse_Less xs (tieReversingSort reverse_Less xs)"
  unfolding tieReversingSort_def
  by (rule insertionSort_descending) (auto simp: reverse_Less_def bySize_Less_def)






section \<open>Parsing the split size\<close>

lemma splitPoint_takeWhile: "splitPoint s = length (takeWhile isDigit s)"
  by (induction s) auto

lemma take_splitPoint: "take (splitPoint s) s = takeWhile isDigit s"
  by (simp add: splitPoint_takeWhile takeWhile_eq_take [symmetric])

lemma drop_splitPoint: "drop (splitPoint s) s = dropWhile isDigit s"
  by (simp add: splitPoint_takeWhile dropWhile_eq_drop [symmetric])

lemma foldl_digits_mono: "n \<le> foldl (\<lambda>n c. n * 10 + digitVal c) n ds"
proof (induction ds arbitrary: n)
  case Nil
  then show ?case by simp
next
  case (Cons c cs)
  have "n \<le> n * 10 + digitVal c" by simp
  also have "\<dots> \<le> foldl (\<lambda>n c. n * 10 + digitVal c) (n * 10 + digitVal c) cs"
    by (rule Cons.IH)
  finally show ?case by simp
qed

lemma parseDigits_digits:
  "list_all isDigit ds \<Longrightarrow> n < 2 ^ 64 \<Longrightarrow>
   parseDigits n ds =
     (if foldl (\<lambda>n c. n * 10 + digitVal c) n ds < 2 ^ 64
      then Some (foldl (\<lambda>n c. n * 10 + digitVal c) n ds) else None)"
proof (induction ds arbitrary: n)
  case Nil
  then show ?case by simp
next
  case (Cons c cs)
  show ?case
  proof (cases "2 ^ 64 \<le> n * 10 + digitVal c")
    case True
    moreover have "n * 10 + digitVal c \<le> foldl (\<lambda>n c. n * 10 + digitVal c) (n * 10 + digitVal c) cs"
      by (rule foldl_digits_mono)
    ultimately show ?thesis using Cons.prems by simp
  next
    case False
    then have "n * 10 + digitVal c < 2 ^ 64" by simp
    from Cons.IH [OF _ this] Cons.prems False show ?thesis by simp
  qed
qed

lemma ParseUint_digits:
  "list_all isDigit ds \<Longrightarrow>
   ParseUint ds =
     (if ds = [] \<or> 2 ^ 64 \<le> decimalValue ds then None else Some (of_nat (decimalValue ds)))"
  by (simp add: ParseUint_def decimalValue_def parseDigits_digits not_less)

lemma sizeTable_specFactor:
  "(case map_of sizeTable u of Some f \<Rightarrow> f | None \<Rightarrow> 0) = specFactor u"
  by (simp add: sizeTable_def specFactor_def Byte_def KByte_def MByte_def GByte_def TByte_def EByte_def)

lemma list_all_takeWhile: "list_all P (takeWhile P xs)"
  by (induction xs) auto

text \<open>
  C8. For an ASCII argument \<open>humanToNumber\<close> takes the leading decimal digits and
  multiplies their value by the factor of the rest, trimmed and in lower case: 1 for no
  suffix and \<open>b\<close>, 1024 for \<open>k\<close> and \<open>kb\<close>, and so on up to 1024 to the fifth for \<open>e\<close> and \<open>eb\<close>,
  0 for any other suffix. The product is a \<^verbatim>\<open>uint64\<close>; without digits, and for digits
  whose value needs more than 64 bits, the result is 0. So \<open>10Mb\<close> gives 10 times 1024
  squared, \<open>0\<close> and the empty string give 0, and \<open>5x\<close> gives 0.
\<close>

theorem humanToNumber_spec:
  "(list_all isAscii s \<longrightarrow>
      humanToNumber s =
        (let digits = takeWhile isDigit s;
             suffix = ToLower (TrimSpace (dropWhile isDigit s))
         in if digits = [] \<or> 2 ^ 64 \<le> decimalValue digits then 0
            else of_nat (decimalValue digits) * specFactor suffix))
   \<and> humanToNumber ''10Mb'' = 10 * 1024 ^ 2
   \<and> humanToNumber ''0'' = 0
   \<and> humanToNumber [] = 0
   \<and> humanToNumber ''5x'' = 0"
proof -
  have g: "humanToNumber s =
        (let digits = takeWhile isDigit s;
             suffix = ToLower (TrimSpace (dropWhile isDigit s))
         in if digits = [] \<or> 2 ^ 64 \<le> decimalValue digits then 0
            else of_nat (decimalValue digits) * specFactor suffix)"
    by (simp add: humanToNumber_def take_splitPoint drop_splitPoint ParseUint_digits
        list_all_takeWhile sizeTable_specFactor Let_def)
  have a: "humanToNumber ''10Mb'' = 10 * 1024 ^ 2"
    by (simp add: humanToNumber_eval)
  have b: "humanToNumber ''0'' = 0"
    by (simp add: humanToNumber_eval)
  have c: "humanToNumber [] = 0"
    by (simp add: humanToNumber_eval)
  have d: "humanToNumber ''5x'' = 0"
    by (simp add: humanToNumber_eval)
  from g a b c d show ?thesis by simp
qed

theorem humanToNumber_spec_witness:
  "list_all isAscii ''2 KB'' \<and> humanToNumber ''2 KB'' = 2048"
proof -
  have a: "list_all isAscii ''2 KB''"
    by (simp add: isAscii_def)
  from humanToNumber_spec [of "''2 KB''"] a
  have "humanToNumber ''2 KB'' =
        (let digits = takeWhile isDigit ''2 KB'';
             suffix = ToLower (TrimSpace (dropWhile isDigit ''2 KB''))
         in if digits = [] \<or> 2 ^ 64 \<le> decimalValue digits then 0
            else of_nat (decimalValue digits) * specFactor suffix)"
    by blast
  also have "\<dots> = 2048"
    by (simp add: isDigit_def digitVal_def ToLower_def toLower_def TrimSpace_def isSpace_def
        decimalValue_def specFactor_def char_of_def bit_0)
  finally show ?thesis using a by simp
qed

section \<open>The names of the outputs\<close>




























end
